theory Spec2Isabelle
  imports Main "HOL-Library.AList" "HOL-Library.Multiset"
begin

section \<open>Python values\<close>

text \<open>
  The analyzer of \<^verbatim>\<open>github-api.py\<close> and \<^verbatim>\<open>github_analyzer_app.py\<close> works on decoded JSON.
  A JSON object is the decoded \<^verbatim>\<open>dict\<close>: its entries in insertion order, keys distinct.
  Numbers are the integers the API sends as counts; Python's \<^verbatim>\<open>None\<close> is \<open>JNull\<close>.
\<close>

datatype json =
    JNull
  | JBool bool
  | JInt int
  | JStr string
  | JList "json list"
  | JObj "(string \<times> json) list"

text \<open>
  The exceptions the analyzer can raise and does not catch. \<open>TimestampError\<close> stands for what
  \<^verbatim>\<open>datetime.fromtimestamp\<close> raises on a timestamp outside the years 1 to 9999
  (\<^verbatim>\<open>ValueError\<close>, \<^verbatim>\<open>OverflowError\<close> or \<^verbatim>\<open>OSError\<close>, by magnitude);
  \<open>OverflowError\<close> and \<open>OSError\<close> are those of \<^verbatim>\<open>time.sleep\<close>.
\<close>

datatype py_error =
    TypeError
  | ValueError
  | KeyError
  | IndexError
  | AttributeError
  | TimestampError
  | OverflowError
  | OSError

definition and_then :: "'e + 'a \<Rightarrow> ('a \<Rightarrow> 'e + 'b) \<Rightarrow> 'e + 'b" where
  "and_then m f = (case m of Inl e \<Rightarrow> Inl e | Inr x \<Rightarrow> f x)"

text \<open>Truth value of an object, as \<^verbatim>\<open>not x\<close>, \<^verbatim>\<open>if x\<close> and \<^verbatim>\<open>x or y\<close> test it.\<close>

fun truthy :: "json \<Rightarrow> bool" where
  "truthy JNull = False"
| "truthy (JBool b) = b"
| "truthy (JInt n) = (n \<noteq> 0)"
| "truthy (JStr s) = (s \<noteq> [])"
| "truthy (JList xs) = (xs \<noteq> [])"
| "truthy (JObj kv) = (kv \<noteq> [])"

text \<open>\<^verbatim>\<open>x or y\<close>\<close>

definition py_or :: "json \<Rightarrow> json \<Rightarrow> json" where
  "py_or x y = (if truthy x then x else y)"

text \<open>\<^verbatim>\<open>isinstance(x, list)\<close>\<close>

fun is_list :: "json \<Rightarrow> bool" where
  "is_list (JList xs) = True"
| "is_list x = False"

text \<open>
  A value as operand of \<^verbatim>\<open>+\<close> or \<^verbatim>\<open>>\<close> against an \<^verbatim>\<open>int\<close>: \<^verbatim>\<open>bool\<close> is a subclass
  of \<^verbatim>\<open>int\<close>, every other JSON type raises.
\<close>

fun as_number :: "json \<Rightarrow> py_error + int" where
  "as_number (JInt n) = Inr n"
| "as_number (JBool b) = Inr (if b then 1 else 0)"
| "as_number x = Inl TypeError"

text \<open>\<^verbatim>\<open>x[key]\<close> with a string key\<close>

fun getitem :: "json \<Rightarrow> string \<Rightarrow> py_error + json" where
  "getitem (JObj kv) k = (case map_of kv k of None \<Rightarrow> Inl KeyError | Some v \<Rightarrow> Inr v)"
| "getitem x k = Inl TypeError"

text \<open>\<^verbatim>\<open>x.get(key, default)\<close>\<close>

fun dict_get :: "json \<Rightarrow> string \<Rightarrow> json \<Rightarrow> py_error + json" where
  "dict_get (JObj kv) k d = (case map_of kv k of None \<Rightarrow> Inr d | Some v \<Rightarrow> Inr v)"
| "dict_get x k d = Inl AttributeError"

text \<open>\<^verbatim>\<open>x.items()\<close>\<close>

fun dict_items :: "json \<Rightarrow> py_error + (string \<times> json) list" where
  "dict_items (JObj kv) = Inr kv"
| "dict_items x = Inl AttributeError"

text \<open>The elements a \<^verbatim>\<open>for\<close> loop over \<^verbatim>\<open>x\<close> visits: a dict yields its keys, a string its characters.\<close>

fun iterate :: "json \<Rightarrow> py_error + json list" where
  "iterate (JList xs) = Inr xs"
| "iterate (JObj kv) = Inr (map (\<lambda>(k, v). JStr k) kv)"
| "iterate (JStr s) = Inr (map (\<lambda>c. JStr [c]) s)"
| "iterate x = Inl TypeError"

section \<open>The analyzer object and its environment\<close>

text \<open>
  The two files hold the same class; they differ in the page loop of \<^verbatim>\<open>get_user_repos\<close>
  and in one profile field.
\<close>

datatype variant =
    Terminal   \<comment> \<open>\<^verbatim>\<open>github-api.py\<close>\<close>
  | Dashboard  \<comment> \<open>\<^verbatim>\<open>github_analyzer_app.py\<close>\<close>

text \<open>
  The endpoints the analyzer builds: \<^verbatim>\<open>users/{username}\<close>,
  \<^verbatim>\<open>users/{username}/repos\<close> with \<^verbatim>\<open>page\<close> (and the constants \<^verbatim>\<open>per_page=100\<close>,
  \<^verbatim>\<open>sort=updated\<close>), \<^verbatim>\<open>repos/{full_name}/languages\<close> and
  \<^verbatim>\<open>repos/{full_name}/stats/commit_activity\<close>; the f-string accepts any value as name.
\<close>

datatype request =
    Get_user string
  | Get_repos_page string int
  | Get_languages json
  | Get_commit_activity json

text \<open>
  A rate-limit header: absent, a text \<^verbatim>\<open>int()\<close> accepts (with its value), or a text on which
  \<^verbatim>\<open>int()\<close> raises \<^verbatim>\<open>ValueError\<close>.
\<close>

datatype header =
    Missing
  | Numeric int
  | Garbage

text \<open>
  What \<^verbatim>\<open>requests.get\<close> does: raise a \<^verbatim>\<open>RequestException\<close>, or return a response with
  its status code, the headers \<^verbatim>\<open>X-RateLimit-Remaining\<close> and \<^verbatim>\<open>X-RateLimit-Reset\<close>, and
  its body as \<^verbatim>\<open>response.json()\<close> decodes it.
\<close>

datatype response =
    ConnectionFailed
  | Reply int header header json

text \<open>
  The environment answers the \<open>n\<close>-th request of a run (counted from 0) and tells the time,
  in microseconds since the epoch, that \<^verbatim>\<open>datetime.now\<close> reads before it, and the
  longest wait, in microseconds, that the platform's sleep takes then.
\<close>

record env =
  server :: "nat \<Rightarrow> request \<Rightarrow> response"
  clock :: "nat \<Rightarrow> int"
  sleep_limit :: "nat \<Rightarrow> int"

text \<open>
  What the object does that the outside sees, in the order it does it: a \<^verbatim>\<open>time.sleep\<close>
  of so many microseconds, or a \<^verbatim>\<open>requests.get\<close>.
\<close>

datatype event =
    Slept int
  | Sent request

text \<open>
  The fields of \<^verbatim>\<open>GitHubAnalyzer\<close> that change, and the events of the object so far.
\<close>

record analyzer =
  rate_limit_remaining :: "int option"
  rate_limit_reset :: "int option"
  trace :: "event list"

definition init :: analyzer where
  "init = \<lparr>rate_limit_remaining = None, rate_limit_reset = None, trace = []\<rparr>"

text \<open>The requests among the events, in order.\<close>

fun requests_of :: "event list \<Rightarrow> request list" where
  "requests_of [] = []"
| "requests_of (Slept d # es) = requests_of es"
| "requests_of (Sent req # es) = req # requests_of es"

definition sent :: "analyzer \<Rightarrow> request list" where
  "sent a = requests_of (trace a)"

text \<open>
  An exception leaves the object as it is when it is raised: a call on the analyzer either
  raises, with the analyzer at that point, or returns a value and the analyzer.
\<close>

definition raising :: "analyzer \<Rightarrow> py_error + 'a \<Rightarrow> (py_error \<times> analyzer) + 'a" where
  "raising a m = (case m of Inl err \<Rightarrow> Inl (err, a) | Inr x \<Rightarrow> Inr x)"

section \<open>\<^verbatim>\<open>_make_request\<close>\<close>

text \<open>
  \<^verbatim>\<open>datetime.fromtimestamp(t, timezone.utc)\<close>, as microseconds since the epoch; defined from
  0001-01-01 to 9999-12-31.
\<close>

definition fromtimestamp :: "int \<Rightarrow> py_error + int" where
  "fromtimestamp t =
     (if - 62135596800 \<le> t \<and> t \<le> 253402300799 then Inr (t * 1000000) else Inl TimestampError)"

text \<open>
  \<^verbatim>\<open>time.sleep(wait_seconds)\<close> for a positive wait, in microseconds. CPython keeps the
  wait as a signed 64-bit number of nanoseconds and raises \<^verbatim>\<open>OverflowError\<close> when it does
  not fit (a wait of more than about 292 years); the platform's sleep can refuse a shorter
  wait with an \<^verbatim>\<open>OSError\<close> (on Linux, CPython 3.11 adds the wait to the monotonic clock,
  and the sum must fit too). The source computes the wait as a float of seconds; here it is
  an exact number of microseconds.
\<close>

definition time_sleep :: "int \<Rightarrow> int \<Rightarrow> py_error + int" where
  "time_sleep limit wait =
     (if wait * 1000 > 9223372036854775807 then Inl OverflowError
      else if wait > limit then Inl OSError
      else Inr wait)"

text \<open>
  The rate-limit check that opens \<^verbatim>\<open>_make_request\<close>: the length of the sleep it takes,
  if any. \<^verbatim>\<open>fromtimestamp(None)\<close> raises \<^verbatim>\<open>TypeError\<close>.
\<close>

definition maybe_wait :: "analyzer \<Rightarrow> int \<Rightarrow> int \<Rightarrow> py_error + int option" where
  "maybe_wait a current_time limit =
     (case rate_limit_remaining a of
        None \<Rightarrow> Inr None
      | Some remaining \<Rightarrow>
          if remaining < 5 then
            and_then
              (case rate_limit_reset a of None \<Rightarrow> Inl TypeError | Some t \<Rightarrow> fromtimestamp t)
              (\<lambda>reset_time.
                 if reset_time > current_time
                 then and_then (time_sleep limit (reset_time - current_time + 1000000))
                        (\<lambda>wait. Inr (Some wait))
                 else Inr None)
          else Inr None)"

text \<open>\<^verbatim>\<open>int(response.headers.get(name, 0))\<close>\<close>

fun header_int :: "header \<Rightarrow> py_error + int" where
  "header_int Missing = Inr 0"
| "header_int (Numeric n) = Inr n"
| "header_int Garbage = Inl ValueError"

text \<open>
  The two assignments that follow \<^verbatim>\<open>requests.get\<close>, in their order: when the second
  \<^verbatim>\<open>int()\<close> raises, the first field is already written.
\<close>

definition observe :: "analyzer \<Rightarrow> header \<Rightarrow> header \<Rightarrow> (py_error \<times> analyzer) + analyzer" where
  "observe a h_remaining h_reset =
     and_then (raising a (header_int h_remaining)) (\<lambda>remaining.
       let a1 = a\<lparr>rate_limit_remaining := Some remaining\<rparr>
       in and_then (raising a1 (header_int h_reset)) (\<lambda>reset.
            Inr (a1\<lparr>rate_limit_reset := Some reset\<rparr>)))"

text \<open>
  \<^verbatim>\<open>_make_request\<close>: the rate-limit check with its sleep, then the request. A
  \<^verbatim>\<open>RequestException\<close> is caught and gives \<^verbatim>\<open>None\<close>; the \<^verbatim>\<open>ValueError\<close> of \<^verbatim>\<open>int()\<close>
  is not a \<^verbatim>\<open>RequestException\<close> and leaves the method.
\<close>

definition make_request ::
  "env \<Rightarrow> analyzer \<Rightarrow> request \<Rightarrow> (py_error \<times> analyzer) + json \<times> analyzer" where
  "make_request e a req =
     (let n = length (sent a) in
      and_then (raising a (maybe_wait a (clock e n) (sleep_limit e n))) (\<lambda>pause.
        let a1 = a\<lparr>trace := trace a @ (case pause of None \<Rightarrow> [] | Some d \<Rightarrow> [Slept d])\<rparr>;
            a2 = a1\<lparr>trace := trace a1 @ [Sent req]\<rparr>
        in case server e n req of
             ConnectionFailed \<Rightarrow> Inr (JNull, a2)
           | Reply status h_remaining h_reset body \<Rightarrow>
               and_then (observe a2 h_remaining h_reset) (\<lambda>a3.
                 if status = 200 then Inr (body, a3) else Inr (JNull, a3))))"

section \<open>Fetching\<close>

definition get_user_info ::
  "env \<Rightarrow> analyzer \<Rightarrow> string \<Rightarrow> (py_error \<times> analyzer) + json \<times> analyzer" where
  "get_user_info e a username = make_request e a (Get_user username)"

text \<open>\<^verbatim>\<open>all_repos.extend(repos_page)\<close>, reached only when \<^verbatim>\<open>repos_page\<close> is a list.\<close>

fun extend :: "json list \<Rightarrow> json \<Rightarrow> json list" where
  "extend all_repos (JList xs) = all_repos @ xs"
| "extend all_repos x = all_repos"

text \<open>\<^verbatim>\<open>len(repos_page)\<close> of a list\<close>

fun len :: "json \<Rightarrow> nat" where
  "len (JList xs) = length xs"
| "len x = 0"

text \<open>
  The \<^verbatim>\<open>while True\<close> loop of \<^verbatim>\<open>get_user_repos\<close>. Both files leave it when the page is
  falsy or not a list (the second test of \<^verbatim>\<open>github-api.py\<close>, \<^verbatim>\<open>if not repos_page\<close>, can
  never fire after the first); only \<^verbatim>\<open>github_analyzer_app.py\<close> leaves it after a page of
  fewer than 100 entries. Nothing bounds the number of pages, so the loop need not return.
\<close>

partial_function (option) repos_loop ::
  "variant \<Rightarrow> env \<Rightarrow> string \<Rightarrow> analyzer \<Rightarrow> json list \<Rightarrow> int \<Rightarrow>
     ((py_error \<times> analyzer) + json list \<times> analyzer) option"
where
  "repos_loop v e username a all_repos page =
     (case make_request e a (Get_repos_page username page) of
        Inl err \<Rightarrow> Some (Inl err)
      | Inr (repos_page, a') \<Rightarrow>
          if \<not> truthy repos_page \<or> \<not> is_list repos_page then Some (Inr (all_repos, a'))
          else if v = Terminal \<and> \<not> truthy repos_page then Some (Inr (all_repos, a'))
          else if v = Dashboard \<and> len repos_page < 100
            then Some (Inr (extend all_repos repos_page, a'))
          else repos_loop v e username a' (extend all_repos repos_page) (page + 1))"

declare repos_loop.simps [code]

definition get_user_repos ::
  "variant \<Rightarrow> env \<Rightarrow> analyzer \<Rightarrow> string \<Rightarrow> ((py_error \<times> analyzer) + json list \<times> analyzer) option"
  where
  "get_user_repos v e a username = repos_loop v e username a [] 1"

definition get_repo_languages ::
  "env \<Rightarrow> analyzer \<Rightarrow> json \<Rightarrow> (py_error \<times> analyzer) + json \<times> analyzer" where
  "get_repo_languages e a repo_full_name =
     and_then (make_request e a (Get_languages repo_full_name))
       (\<lambda>(r, a'). Inr (py_or r (JObj []), a'))"

definition get_commit_activity ::
  "env \<Rightarrow> analyzer \<Rightarrow> json \<Rightarrow> (py_error \<times> analyzer) + json \<times> analyzer" where
  "get_commit_activity e a repo_full_name =
     and_then (make_request e a (Get_commit_activity repo_full_name))
       (\<lambda>(r, a'). Inr (py_or r (JList []), a'))"

section \<open>The analysis\<close>

text \<open>
  A \<^verbatim>\<open>Counter\<close>: a dict in insertion order whose missing keys read as 0. Two counters are
  equal in Python when they hold the same entries, in whatever order.
\<close>

type_synonym counter = "(string \<times> int) list"

text \<open>\<^verbatim>\<open>counter[key]\<close>\<close>

definition counter_get :: "counter \<Rightarrow> string \<Rightarrow> int" where
  "counter_get c k = (case map_of c k of None \<Rightarrow> 0 | Some m \<Rightarrow> m)"

text \<open>\<^verbatim>\<open>counter[key] += value\<close>: an existing key keeps its place, a new one goes last.\<close>

definition counter_add :: "counter \<Rightarrow> string \<Rightarrow> json \<Rightarrow> py_error + counter" where
  "counter_add c k value =
     and_then (as_number value) (\<lambda>n. Inr (AList.update k (counter_get c k + n) c))"

record user_info =
  name :: json
  bio :: json
  location :: json
  public_repos :: json
  followers :: json
  following :: json
  created_at :: json
  avatar_url :: "json option"  \<comment> \<open>only \<^verbatim>\<open>github_analyzer_app.py\<close> has this field\<close>

record popular_repo =
  repo_name :: json
  stars :: int
  forks :: int
  description :: json
  main_language :: json

text \<open>
  The \<^verbatim>\<open>analysis\<close> dict. Its entries \<^verbatim>\<open>repo_topics\<close>, \<^verbatim>\<open>repo_sizes\<close>,
  \<^verbatim>\<open>active_times\<close> and \<^verbatim>\<open>recent_activity\<close> are created empty and never written.
\<close>

record analysis =
  profile :: user_info
  languages :: counter
  commit_days :: counter
  total_stars :: int
  total_forks :: int
  popular_repos :: "popular_repo list"

text \<open>What \<^verbatim>\<open>analyze_user_activity\<close> returns: the empty dict \<^verbatim>\<open>{}\<close> or the analysis.\<close>

datatype result =
    Empty
  | Analysis analysis

definition build_user_info :: "variant \<Rightarrow> json \<Rightarrow> py_error + user_info" where
  "build_user_info v info =
     and_then (dict_get info ''name'' (JStr ''N/A'')) (\<lambda>n.
     and_then (dict_get info ''bio'' (JStr ''N/A'')) (\<lambda>b.
     and_then (dict_get info ''location'' (JStr ''N/A'')) (\<lambda>l.
     and_then (dict_get info ''public_repos'' (JInt 0)) (\<lambda>p.
     and_then (dict_get info ''followers'' (JInt 0)) (\<lambda>fs.
     and_then (dict_get info ''following'' (JInt 0)) (\<lambda>fg.
     and_then (dict_get info ''created_at'' (JStr ''N/A'')) (\<lambda>c.
     and_then (if v = Dashboard
               then and_then (dict_get info ''avatar_url'' (JStr [])) (\<lambda>u. Inr (Some u))
               else Inr None) (\<lambda>av.
       Inr \<lparr>name = n, bio = b, location = l, public_repos = p, followers = fs,
            following = fg, created_at = c, avatar_url = av\<rparr>))))))))"

definition new_analysis :: "user_info \<Rightarrow> analysis" where
  "new_analysis u =
     \<lparr>profile = u, languages = [], commit_days = [], total_stars = 0, total_forks = 0,
      popular_repos = []\<rparr>"

text \<open>\<^verbatim>\<open>for language, bytes_count in languages.items(): ...[language] += bytes_count\<close>\<close>

fun add_items :: "counter \<Rightarrow> (string \<times> json) list \<Rightarrow> py_error + counter" where
  "add_items c [] = Inr c"
| "add_items c ((language, bytes_count) # rest) =
     and_then (counter_add c language bytes_count) (\<lambda>c'. add_items c' rest)"

definition add_languages :: "counter \<Rightarrow> json \<Rightarrow> py_error + counter" where
  "add_languages c langs = and_then (dict_items langs) (add_items c)"

text \<open>
  The language tally over \<^verbatim>\<open>for repo in repositories\<close>, given what
  \<^verbatim>\<open>get_repo_languages\<close> returns for the successive repositories.
\<close>

fun add_all_languages :: "counter \<Rightarrow> json list \<Rightarrow> py_error + counter" where
  "add_all_languages c [] = Inr c"
| "add_all_languages c (langs # rest) =
     and_then (add_languages c langs) (\<lambda>c'. add_all_languages c' rest)"

text \<open>
  \<^verbatim>\<open>calendar.day_abbr[day_idx]\<close> in the C and English locales: the standard library's week
  starts on Monday (\<^verbatim>\<open>calendar.MONDAY == 0\<close>), and it has seven entries.
\<close>

definition day_abbr :: "nat \<Rightarrow> py_error + string" where
  "day_abbr day_idx =
     (if day_idx < 7
      then Inr ([''Mon'', ''Tue'', ''Wed'', ''Thu'', ''Fri'', ''Sat'', ''Sun''] ! day_idx)
      else Inl IndexError)"

text \<open>\<^verbatim>\<open>for day_idx, count in enumerate(days)\<close>, from index \<open>day_idx\<close> on\<close>

fun add_days :: "counter \<Rightarrow> nat \<Rightarrow> json list \<Rightarrow> py_error + counter" where
  "add_days c day_idx [] = Inr c"
| "add_days c day_idx (cnt # rest) =
     and_then (as_number cnt) (\<lambda>n.
       if n > 0
       then and_then (day_abbr day_idx) (\<lambda>day_name.
            and_then (counter_add c day_name cnt) (\<lambda>c'. add_days c' (Suc day_idx) rest))
       else add_days c (Suc day_idx) rest)"

text \<open>\<^verbatim>\<open>for week in commit_activity\<close>\<close>

fun add_weeks :: "counter \<Rightarrow> json list \<Rightarrow> py_error + counter" where
  "add_weeks c [] = Inr c"
| "add_weeks c (week # rest) =
     and_then (dict_get week ''days'' (JList [])) (\<lambda>days.
     and_then (iterate days) (\<lambda>ds.
     and_then (add_days c 0 ds) (\<lambda>c'. add_weeks c' rest)))"

definition add_commit_activity :: "counter \<Rightarrow> json \<Rightarrow> py_error + counter" where
  "add_commit_activity c commit_activity =
     (if truthy commit_activity
      then and_then (iterate commit_activity) (add_weeks c)
      else Inr c)"

text \<open>The body of \<^verbatim>\<open>for repo in repositories\<close>.\<close>

definition analyze_repo ::
  "env \<Rightarrow> json \<Rightarrow> analysis \<times> analyzer \<Rightarrow> (py_error \<times> analyzer) + analysis \<times> analyzer" where
  "analyze_repo e repo s =
     (case s of (an, a) \<Rightarrow>
      and_then (raising a (getitem repo ''full_name'')) (\<lambda>full_name.
      and_then (get_repo_languages e a full_name) (\<lambda>(langs, a1).
      and_then (raising a1 (add_languages (languages an) langs)) (\<lambda>ls.
      and_then (get_commit_activity e a1 full_name) (\<lambda>(commit_activity, a2).
      and_then (raising a2 (add_commit_activity (commit_days an) commit_activity)) (\<lambda>cd.
      and_then (raising a2 (and_then (getitem repo ''stargazers_count'') as_number)) (\<lambda>st.
      and_then (raising a2 (and_then (getitem repo ''forks_count'') as_number)) (\<lambda>fk.
      let an1 = an\<lparr>languages := ls, commit_days := cd,
                    total_stars := total_stars an + st, total_forks := total_forks an + fk\<rparr>
      in if st > 0 then
           and_then (raising a2 (getitem repo ''name'')) (\<lambda>nm.
           and_then (raising a2 (getitem repo ''description'')) (\<lambda>ds.
           and_then (raising a2 (getitem repo ''language'')) (\<lambda>lg.
             Inr (an1\<lparr>popular_repos := popular_repos an1 @
                    [\<lparr>repo_name = nm, stars = st, forks = fk,
                      description = py_or ds (JStr ''No description''),
                      main_language = py_or lg (JStr ''Not specified'')\<rparr>]\<rparr>, a2))))
         else Inr (an1, a2)))))))))"

fun analyze_repos ::
  "env \<Rightarrow> json list \<Rightarrow> analysis \<times> analyzer \<Rightarrow> (py_error \<times> analyzer) + analysis \<times> analyzer" where
  "analyze_repos e [] s = Inr s"
| "analyze_repos e (repo # rest) s = and_then (analyze_repo e repo s) (analyze_repos e rest)"

text \<open>
  \<^verbatim>\<open>popular_repos.sort(key=lambda x: x["stars"], reverse=True)\<close>: CPython reverses the list,
  sorts it stably in ascending order of the key and reverses it again.
\<close>

definition sort_popular :: "popular_repo list \<Rightarrow> popular_repo list" where
  "sort_popular xs = rev (sort_key stars (rev xs))"

definition analyze_user_activity ::
  "variant \<Rightarrow> env \<Rightarrow> analyzer \<Rightarrow> string \<Rightarrow> ((py_error \<times> analyzer) + result \<times> analyzer) option"
  where
  "analyze_user_activity v e a username =
     (case get_user_info e a username of
        Inl err \<Rightarrow> Some (Inl err)
      | Inr (info, a1) \<Rightarrow>
          if \<not> truthy info then Some (Inr (Empty, a1))
          else
            (case get_user_repos v e a1 username of
               None \<Rightarrow> None
             | Some (Inl err) \<Rightarrow> Some (Inl err)
             | Some (Inr (repositories, a2)) \<Rightarrow>
                 Some (and_then (raising a2 (build_user_info v info)) (\<lambda>u.
                       and_then (analyze_repos e repositories (new_analysis u, a2)) (\<lambda>(an, a3).
                         Inr (Analysis (an\<lparr>popular_repos := sort_popular (popular_repos an)\<rparr>),
                              a3))))))"

section \<open>Vocabulary of the properties\<close>

text \<open>
  The rate-limit check raises nothing with these two fields, at this time and with this
  longest sleep: with fewer than 5 requests remaining, the reset time is known,
  \<^verbatim>\<open>datetime\<close> can represent it and, when a sleep is due, \<^verbatim>\<open>time.sleep\<close> takes it.
\<close>

definition passes_with :: "int option \<Rightarrow> int option \<Rightarrow> int \<Rightarrow> int \<Rightarrow> bool" where
  "passes_with remaining reset now limit =
     (case remaining of
        None \<Rightarrow> True
      | Some r \<Rightarrow>
          r < 5 \<longrightarrow>
            (case reset of
               None \<Rightarrow> False
             | Some t \<Rightarrow>
                 - 62135596800 \<le> t \<and> t \<le> 253402300799 \<and>
                 (now < t * 1000000 \<longrightarrow>
                    (t * 1000000 - now + 1000000) * 1000 \<le> 9223372036854775807 \<and>
                    t * 1000000 - now + 1000000 \<le> limit)))"

definition passes :: "analyzer \<Rightarrow> int \<Rightarrow> int \<Rightarrow> bool" where
  "passes a now limit =
     passes_with (rate_limit_remaining a) (rate_limit_reset a) now limit"

text \<open>
  The condition of the specification for a sleep: the remaining quota is known and below 5
  and the reset time is in the future.
\<close>

definition must_wait :: "analyzer \<Rightarrow> int \<Rightarrow> bool" where
  "must_wait a now =
     (case (rate_limit_remaining a, rate_limit_reset a) of
        (Some r, Some t) \<Rightarrow> r < 5 \<and> now < t * 1000000
      | _ \<Rightarrow> False)"

text \<open>The analyzer as a call leaves it, whether the call returns or raises.\<close>

fun final :: "(py_error \<times> analyzer) + 'a \<times> analyzer \<Rightarrow> analyzer" where
  "final (Inl (err, a)) = a"
| "final (Inr (x, a)) = a"

text \<open>\<^verbatim>\<open>int()\<close> reads both rate-limit headers of the response.\<close>

fun parses :: "response \<Rightarrow> bool" where
  "parses ConnectionFailed = True"
| "parses (Reply status h_remaining h_reset body) = (h_remaining \<noteq> Garbage \<and> h_reset \<noteq> Garbage)"

text \<open>With the fields this response leaves, the rate-limit check raises nothing.\<close>

fun allows :: "response \<Rightarrow> int \<Rightarrow> int \<Rightarrow> bool" where
  "allows ConnectionFailed now limit = True"
| "allows (Reply status h_remaining h_reset body) now limit =
     (case (header_int h_remaining, header_int h_reset) of
        (Inr r, Inr t) \<Rightarrow> passes_with (Some r) (Some t) now limit
      | _ \<Rightarrow> True)"

text \<open>
  No request of a run raises by itself: in the state \<open>a\<close> the rate-limit check passes
  whatever the time, and every response of the server has headers that \<^verbatim>\<open>int()\<close> reads
  and that let the check pass whatever the time.
\<close>

definition calm :: "env \<Rightarrow> analyzer \<Rightarrow> bool" where
  "calm e a = (\<forall>m. passes a (clock e m) (sleep_limit e m))"

definition orderly :: "env \<Rightarrow> bool" where
  "orderly e =
     (\<forall>n req m. parses (server e n req) \<and>
                allows (server e n req) (clock e m) (sleep_limit e m))"

text \<open>What \<^verbatim>\<open>_make_request\<close> returns for a response: the body of a 200, else \<^verbatim>\<open>None\<close>.\<close>

fun payload :: "response \<Rightarrow> json" where
  "payload ConnectionFailed = JNull"
| "payload (Reply status h_remaining h_reset body) = (if status = 200 then body else JNull)"

text \<open>A failure: the transport raised, or the status is not 200.\<close>

fun failure :: "response \<Rightarrow> bool" where
  "failure ConnectionFailed = True"
| "failure (Reply status h_remaining h_reset body) = (status \<noteq> 200)"

text \<open>
  From its \<open>k\<close>-th request on, the environment answers the requests for the pages
  \<open>page\<close>, \<open>page + 1\<close>, ... of the user's repositories with the responses \<open>rs\<close>.
\<close>

definition serves :: "env \<Rightarrow> nat \<Rightarrow> string \<Rightarrow> int \<Rightarrow> response list \<Rightarrow> bool" where
  "serves e k username page rs =
     (\<forall>i<length rs. server e (k + i) (Get_repos_page username (page + int i)) = rs ! i)"

text \<open>The response is a 200 that carries the page \<open>p\<close>.\<close>

fun page_reply :: "response \<Rightarrow> json list \<Rightarrow> bool" where
  "page_reply (Reply status h_remaining h_reset body) p = (status = 200 \<and> body = JList p)"
| "page_reply ConnectionFailed p = False"

text \<open>After this page the loop of the given file asks for the next one.\<close>

definition continues :: "variant \<Rightarrow> json list \<Rightarrow> bool" where
  "continues v p = (p \<noteq> [] \<and> (v = Dashboard \<longrightarrow> 100 \<le> length p))"

text \<open>The requests for \<open>n\<close> successive pages, from \<open>page\<close> on.\<close>

definition page_requests :: "string \<Rightarrow> int \<Rightarrow> nat \<Rightarrow> request list" where
  "page_requests username page n = map (\<lambda>i. Get_repos_page username (page + int i)) [0..<n]"

text \<open>
  What the loop over the repositories takes from one repository: a count read for the
  totals, and the entry appended to the popular repositories when the repository has stars.
\<close>

definition count_field :: "json \<Rightarrow> string \<Rightarrow> py_error + int" where
  "count_field repo k = and_then (getitem repo k) as_number"

definition popular_entry :: "json \<Rightarrow> py_error + popular_repo option" where
  "popular_entry repo =
     and_then (count_field repo ''stargazers_count'') (\<lambda>st.
     and_then (count_field repo ''forks_count'') (\<lambda>fk.
       if st > 0 then
         and_then (getitem repo ''name'') (\<lambda>nm.
         and_then (getitem repo ''description'') (\<lambda>ds.
         and_then (getitem repo ''language'') (\<lambda>lg.
           Inr (Some \<lparr>repo_name = nm, stars = st, forks = fk,
                      description = py_or ds (JStr ''No description''),
                      main_language = py_or lg (JStr ''Not specified'')\<rparr>))))
       else Inr None))"

text \<open>The entries of the repositories that have stars, in the order of the repositories.\<close>

definition discovered :: "json list \<Rightarrow> popular_repo list" where
  "discovered repositories =
     concat (map (\<lambda>repo. case popular_entry repo of Inr (Some x) \<Rightarrow> [x] | _ \<Rightarrow> []) repositories)"






section \<open>Example runs\<close>

text \<open>An analyzer that has 3 requests left until the time 1010 s.\<close>

definition low_quota :: analyzer where
  "low_quota = init\<lparr>rate_limit_remaining := Some 3, rate_limit_reset := Some 1010\<rparr>"

text \<open>An unreachable server, at the time 1000 s; sleeps of up to 9000000000 s are taken.\<close>

definition offline_env :: env where
  "offline_env =
     \<lparr>server = (\<lambda>n req. ConnectionFailed), clock = (\<lambda>n. 1000000000),
      sleep_limit = (\<lambda>n. 9000000000000000)\<rparr>"

text \<open>
  A server that reports no request remaining until the first second of the year 10000.
\<close>

definition far_reset_env :: env where
  "far_reset_env =
     \<lparr>server = (\<lambda>n req. Reply 200 (Numeric 0) (Numeric 253402300800)
                            (JObj [(''login'', JStr ''octocat'')])),
      clock = (\<lambda>n. 1600000000000000),
      sleep_limit = (\<lambda>n. 9000000000000000)\<rparr>"

definition repo_a :: json where
  "repo_a = JObj [(''full_name'', JStr ''octocat/A''), (''name'', JStr ''A''),
                  (''stargazers_count'', JInt 10), (''forks_count'', JInt 2),
                  (''description'', JNull), (''language'', JStr ''X'')]"

definition repo_b :: json where
  "repo_b = JObj [(''full_name'', JStr ''octocat/B''), (''name'', JStr ''B''),
                  (''stargazers_count'', JInt 0), (''forks_count'', JInt 0),
                  (''description'', JStr ''second''), (''language'', JNull)]"

definition ok_reply :: "json \<Rightarrow> response" where
  "ok_reply body = Reply 200 (Numeric 4990) (Numeric 1700000000) body"

text \<open>A user with 101 repositories: a full page, a page of one, then empty pages.\<close>

definition paged_env :: env where
  "paged_env =
     \<lparr>server = (\<lambda>n req. case req of
          Get_repos_page u p \<Rightarrow>
            if p = 1 then ok_reply (JList (replicate 100 repo_a))
            else if p = 2 then ok_reply (JList [repo_b])
            else ok_reply (JList [])
        | _ \<Rightarrow> ConnectionFailed),
      clock = (\<lambda>n. 1600000000000000),
      sleep_limit = (\<lambda>n. 9000000000000000)\<rparr>"

text \<open>
  A server that answers the first page and then fails with a 502 whose
  \<^verbatim>\<open>X-RateLimit-Remaining\<close> header is no number.
\<close>

definition garbled_env :: env where
  "garbled_env =
     \<lparr>server = (\<lambda>n req. case req of
          Get_repos_page u p \<Rightarrow>
            if p = 1 then ok_reply (JList (replicate 100 repo_a))
            else Reply 502 Garbage Missing JNull
        | _ \<Rightarrow> ConnectionFailed),
      clock = (\<lambda>n. 1600000000000000),
      sleep_limit = (\<lambda>n. 9000000000000000)\<rparr>"




text \<open>
  The user \<^verbatim>\<open>octocat\<close> with the two repositories \<open>repo_a\<close> and \<open>repo_b\<close>: a profile
  whose \<^verbatim>\<open>name\<close> is null and that has no \<^verbatim>\<open>bio\<close>, one page of repositories, the
  language bytes X: 100 for A and X: 50, Y: 50 for B, one week of commits for A and a 202
  (statistics not ready) for B.
\<close>

definition demo_env :: env where
  "demo_env =
     \<lparr>server = (\<lambda>n req. case req of
          Get_user u \<Rightarrow>
            ok_reply (JObj [(''login'', JStr ''octocat''), (''name'', JNull),
                            (''location'', JStr ''Earth''), (''followers'', JInt 7)])
        | Get_repos_page u p \<Rightarrow>
            if p = 1 then ok_reply (JList [repo_a, repo_b]) else ok_reply (JList [])
        | Get_languages full_name \<Rightarrow>
            if full_name = JStr ''octocat/A'' then ok_reply (JObj [(''X'', JInt 100)])
            else ok_reply (JObj [(''X'', JInt 50), (''Y'', JInt 50)])
        | Get_commit_activity full_name \<Rightarrow>
            if full_name = JStr ''octocat/A''
            then ok_reply (JList [JObj [(''days'', JList [JInt 1, JInt 0, JInt 0, JInt 0,
                                                          JInt 0, JInt 0, JInt 2]),
                                        (''total'', JInt 3)]])
            else Reply 202 (Numeric 4990) (Numeric 1700000000) (JObj [])),
      clock = (\<lambda>n. 1600000000000000),
      sleep_limit = (\<lambda>n. 9000000000000000)\<rparr>"


text \<open>
  A user whose repositories come in the order P (5 stars), Q (7 stars), R (no star),
  S (5 stars); no languages and no commit activity.
\<close>

definition starred :: "string \<Rightarrow> int \<Rightarrow> json" where
  "starred nm st =
     JObj [(''full_name'', JStr nm), (''name'', JStr nm), (''stargazers_count'', JInt st),
           (''forks_count'', JInt 0), (''description'', JNull), (''language'', JNull)]"

definition ranked_env :: env where
  "ranked_env =
     \<lparr>server = (\<lambda>n req. case req of
          Get_user u \<Rightarrow> ok_reply (JObj [(''login'', JStr ''octocat'')])
        | Get_repos_page u p \<Rightarrow>
            if p = 1
            then ok_reply (JList [starred ''P'' 5, starred ''Q'' 7, starred ''R'' 0,
                                  starred ''S'' 5])
            else ok_reply (JList [])
        | Get_languages full_name \<Rightarrow> ok_reply (JObj [])
        | Get_commit_activity full_name \<Rightarrow> ok_reply (JList [])),
      clock = (\<lambda>n. 1600000000000000),
      sleep_limit = (\<lambda>n. 9000000000000000)\<rparr>"

section \<open>Properties\<close>

subsection \<open>Requests and pages\<close>

lemma and_then_Inl [simp]: "and_then (Inl err) f = Inl err"
  by (simp add: and_then_def)

lemma and_then_Inr [simp]: "and_then (Inr x) f = f x"
  by (simp add: and_then_def)

lemma and_then_eq_Inr:
  "and_then m f = Inr y \<longleftrightarrow> (\<exists>x. m = Inr x \<and> f x = Inr y)"
  by (cases m) simp_all

lemma raising_Inl [simp]: "raising a (Inl err) = Inl (err, a)"
  by (simp add: raising_def)

lemma raising_Inr [simp]: "raising a (Inr x) = Inr x"
  by (simp add: raising_def)

lemma raising_eq_Inr: "raising a m = Inr x \<longleftrightarrow> m = Inr x"
  by (cases m) simp_all

lemma requests_of_append: "requests_of (es @ es') = requests_of es @ requests_of es'"
  by (induction es rule: requests_of.induct) simp_all

lemma sent_trace_update: "sent (a\<lparr>trace := trace a @ es\<rparr>) = sent a @ requests_of es"
  by (simp add: sent_def requests_of_append)

lemma maybe_wait_due:
  assumes "passes a now limit"
    and "rate_limit_remaining a = Some r" and "r < 5"
    and "rate_limit_reset a = Some t" and "now < t * 1000000"
  shows "maybe_wait a now limit = Inr (Some (t * 1000000 + 1000000 - now))"
  using assms
  by (simp add: maybe_wait_def passes_def passes_with_def fromtimestamp_def time_sleep_def)

lemma maybe_wait_not_due:
  assumes "passes a now limit" and "\<not> must_wait a now"
  shows "maybe_wait a now limit = Inr None"
  using assms
  by (auto simp: maybe_wait_def passes_def passes_with_def must_wait_def fromtimestamp_def
           split: option.splits)

lemma maybe_wait_passes:
  assumes "passes a now limit"
  shows "\<exists>pause. maybe_wait a now limit = Inr pause"
proof (cases "must_wait a now")
  case True
  then obtain r t where "rate_limit_remaining a = Some r" and "r < 5"
    and "rate_limit_reset a = Some t" and "now < t * 1000000"
    by (auto simp: must_wait_def split: option.splits)
  with assms maybe_wait_due show ?thesis by blast
next
  case False
  with assms maybe_wait_not_due show ?thesis by blast
qed

lemma observe_reads:
  assumes "h_remaining \<noteq> Garbage" and "h_reset \<noteq> Garbage"
  shows "\<exists>r t. header_int h_remaining = Inr r \<and> header_int h_reset = Inr t \<and>
           observe a h_remaining h_reset =
             Inr (a\<lparr>rate_limit_remaining := Some r, rate_limit_reset := Some t\<rparr>)"
  using assms by (cases h_remaining; cases h_reset) (simp_all add: observe_def)

lemma passes_fields:
  assumes "rate_limit_remaining a' = rate_limit_remaining a"
    and "rate_limit_reset a' = rate_limit_reset a"
  shows "passes a' now limit = passes a now limit"
  using assms by (simp add: passes_def)

lemma make_request_fine:
  assumes calm: "calm e a"
    and ord: "orderly e"
  shows "\<exists>a'. make_request e a req = Inr (payload (server e (length (sent a)) req), a') \<and>
              calm e a' \<and> sent a' = sent a @ [req]"
proof -
  let ?n = "length (sent a)"
  from calm have "passes a (clock e ?n) (sleep_limit e ?n)"
    by (simp add: calm_def)
  then obtain pause where w: "maybe_wait a (clock e ?n) (sleep_limit e ?n) = Inr pause"
    using maybe_wait_passes by blast
  define a2 where "a2 = a\<lparr>trace := trace a @
      (case pause of None \<Rightarrow> [] | Some d \<Rightarrow> [Slept d]) @ [Sent req]\<rparr>"
  have s2: "sent a2 = sent a @ [req]"
    by (cases pause) (simp_all add: a2_def sent_trace_update)
  have c2: "calm e a2"
    using calm by (simp add: calm_def a2_def passes_def)
  from ord have ps: "parses (server e ?n req)"
    and al: "\<And>m. allows (server e ?n req) (clock e m) (sleep_limit e m)"
    by (simp_all add: orderly_def)
  show ?thesis
  proof (cases "server e ?n req")
    case ConnectionFailed
    then have "make_request e a req = Inr (JNull, a2)"
      using w by (simp add: make_request_def a2_def)
    with ConnectionFailed c2 s2 show ?thesis by simp
  next
    case (Reply st h1 h2 body)
    with ps have "h1 \<noteq> Garbage" and "h2 \<noteq> Garbage" by simp_all
    from observe_reads [OF this, of a2] obtain r t where
      hr: "header_int h1 = Inr r" and ht: "header_int h2 = Inr t"
      and o: "observe a2 h1 h2 = Inr (a2\<lparr>rate_limit_remaining := Some r, rate_limit_reset := Some t\<rparr>)"
      by blast
    let ?a3 = "a2\<lparr>rate_limit_remaining := Some r, rate_limit_reset := Some t\<rparr>"
    have "make_request e a req = Inr (if st = 200 then body else JNull, ?a3)"
      using w Reply o by (simp add: make_request_def a2_def)
    moreover have "calm e ?a3"
      using al Reply hr ht by (simp add: calm_def passes_def)
    moreover have "sent ?a3 = sent a @ [req]"
      using s2 by (simp add: sent_def)
    ultimately show ?thesis using Reply by simp
  qed
qed

lemma serves_Cons:
  "serves e k u page (r # rs) \<longleftrightarrow>
     server e k (Get_repos_page u page) = r \<and> serves e (Suc k) u (page + 1) rs"
proof -
  have "(\<forall>i<Suc (length rs). server e (k + i) (Get_repos_page u (page + int i)) = (r # rs) ! i) \<longleftrightarrow>
        (server e k (Get_repos_page u page) = r \<and>
         (\<forall>i<length rs. server e (k + Suc i) (Get_repos_page u (page + int (Suc i))) = rs ! i))"
    by (simp add: All_less_Suc2)
  then show ?thesis
    by (simp add: serves_def ac_simps)
qed

lemma serves_append:
  "serves e k u page (rs @ rs') \<longleftrightarrow>
     serves e k u page rs \<and> serves e (k + length rs) u (page + int (length rs)) rs'"
proof (induction rs arbitrary: k page)
  case Nil
  then show ?case by (simp add: serves_def)
next
  case (Cons r rs)
  then show ?case by (simp add: serves_Cons ac_simps)
qed

lemma page_requests_Suc:
  "page_requests u page (Suc n) = Get_repos_page u page # page_requests u (page + 1) n"
proof -
  have "map (\<lambda>i. Get_repos_page u (page + int i)) [0..<Suc n] =
        Get_repos_page u page # map (\<lambda>i. Get_repos_page u (page + 1 + int i)) [0..<n]"
    by (simp only: upt_conv_Cons [of 0 "Suc n"] map_Suc_upt [symmetric] list.map)
       (simp add: comp_def ac_simps)
  then show ?thesis by (simp only: page_requests_def)
qed

lemma length_page_requests: "length (page_requests u page n) = n"
  by (simp add: page_requests_def)

lemma page_requests_snoc:
  "page_requests u page (Suc n) = page_requests u page n @ [Get_repos_page u (page + int n)]"
  by (simp add: page_requests_def)

lemma loop_continue:
  assumes "calm e a" and "orderly e"
    and "serves e (length (sent a)) u page rs"
    and "list_all2 page_reply rs ps"
    and "\<forall>p\<in>set ps. continues v p"
  shows "\<exists>a'. calm e a' \<and> sent a' = sent a @ page_requests u page (length ps) \<and>
           repos_loop v e u a acc page =
           repos_loop v e u a' (acc @ concat ps) (page + int (length ps))"
  using assms
proof (induction ps arbitrary: a acc page rs)
  case Nil
  then show ?case by (auto simp: page_requests_def)
next
  case (Cons p ps)
  from Cons.prems(4) obtain r rs' where rs: "rs = r # rs'"
    and r: "page_reply r p" and rest: "list_all2 page_reply rs' ps"
    by (auto simp: list_all2_Cons2)
  from Cons.prems(3) rs
  have srv: "server e (length (sent a)) (Get_repos_page u page) = r"
    and srv': "serves e (Suc (length (sent a))) u (page + 1) rs'"
    by (simp_all add: serves_Cons)
  from r have pr: "payload r = JList p"
    by (cases r) auto
  from make_request_fine [OF Cons.prems(1,2), of "Get_repos_page u page"]
  obtain a1 where mr: "make_request e a (Get_repos_page u page) = Inr (JList p, a1)"
    and ok1: "calm e a1" and s1: "sent a1 = sent a @ [Get_repos_page u page]"
    using srv pr by auto
  from Cons.prems(5) have cp: "continues v p" and cps: "\<forall>q\<in>set ps. continues v q"
    by simp_all
  have step: "repos_loop v e u a acc page = repos_loop v e u a1 (acc @ p) (page + 1)"
    using mr cp by (subst repos_loop.simps) (auto simp: continues_def)
  have "serves e (length (sent a1)) u (page + 1) rs'"
    using srv' s1 by simp
  from Cons.IH [OF ok1 Cons.prems(2) this rest cps, of "acc @ p"]
  obtain a' where ok': "calm e a'"
    and s': "sent a' = sent a1 @ page_requests u (page + 1) (length ps)"
    and l': "repos_loop v e u a1 (acc @ p) (page + 1) =
             repos_loop v e u a' ((acc @ p) @ concat ps) (page + 1 + int (length ps))"
    by blast
  have "sent a' = sent a @ page_requests u page (length (p # ps))"
    using s' s1 by (simp add: page_requests_Suc)
  moreover have "repos_loop v e u a acc page =
      repos_loop v e u a' (acc @ concat (p # ps)) (page + int (length (p # ps)))"
    using step l' by (simp add: ac_simps)
  ultimately show ?case using ok' by blast
qed

lemma loop_stop:
  assumes "calm e a" and "orderly e"
    and "server e (length (sent a)) (Get_repos_page u page) = r"
    and "\<not> truthy (payload r) \<or> \<not> is_list (payload r)"
  shows "\<exists>a'. calm e a' \<and> sent a' = sent a @ [Get_repos_page u page] \<and>
           repos_loop v e u a acc page = Some (Inr (acc, a'))"
proof -
  from make_request_fine [OF assms(1,2), of "Get_repos_page u page"]
  obtain a1 where mr: "make_request e a (Get_repos_page u page) = Inr (payload r, a1)"
    and ok1: "calm e a1" and s1: "sent a1 = sent a @ [Get_repos_page u page]"
    using assms(3) by auto
  have "repos_loop v e u a acc page = Some (Inr (acc, a1))"
    using mr assms(4) by (subst repos_loop.simps) auto
  with ok1 s1 show ?thesis by blast
qed

lemma loop_short:
  assumes "calm e a" and "orderly e"
    and "server e (length (sent a)) (Get_repos_page u page) = r"
    and "page_reply r p"
    and "length p < 100"
  shows "\<exists>a'. calm e a' \<and> sent a' = sent a @ [Get_repos_page u page] \<and>
           repos_loop Dashboard e u a acc page = Some (Inr (acc @ p, a'))"
proof -
  from assms(4) have pr: "payload r = JList p"
    by (cases r) auto
  from make_request_fine [OF assms(1,2), of "Get_repos_page u page"]
  obtain a1 where mr: "make_request e a (Get_repos_page u page) = Inr (JList p, a1)"
    and ok1: "calm e a1" and s1: "sent a1 = sent a @ [Get_repos_page u page]"
    using assms(3) pr by auto
  have "repos_loop Dashboard e u a acc page = Some (Inr (acc @ p, a1))"
    using mr assms(5) by (subst repos_loop.simps) auto
  with ok1 s1 show ?thesis by blast
qed

subsection \<open>The rate-limit check\<close>

text \<open>
  The two rate-limit fields are unknown together, as in \<open>init\<close>, or known together: every
  request that returns keeps it so.
\<close>

lemma make_request_pairs_fields:
  assumes "make_request e a req = Inr (x, a')"
    and "rate_limit_remaining a = None \<longleftrightarrow> rate_limit_reset a = None"
  shows "rate_limit_remaining a' = None \<longleftrightarrow> rate_limit_reset a' = None"
proof (cases "server e (length (sent a)) req")
  case ConnectionFailed
  with assms show ?thesis
    by (auto simp: make_request_def and_then_eq_Inr Let_def)
next
  case (Reply st h1 h2 body)
  with assms show ?thesis
    by (auto simp: make_request_def observe_def and_then_eq_Inr Let_def split: if_splits)
qed

text \<open>Whatever the response, the request leaves the events it found, the sleep and itself.\<close>

lemma trace_after_response:
  "trace (final (case r of
       ConnectionFailed \<Rightarrow> Inr (JNull, a)
     | Reply status h_remaining h_reset body \<Rightarrow>
         and_then (observe a h_remaining h_reset) (\<lambda>a3.
           if status = 200 then Inr (body, a3) else Inr (JNull, a3)))) = trace a"
proof (cases r)
  case ConnectionFailed
  then show ?thesis by simp
next
  case (Reply st h1 h2 body)
  then show ?thesis
    by (cases h1; cases h2) (simp_all add: observe_def)
qed

lemma trace_make_request:
  assumes "maybe_wait a (clock e (length (sent a))) (sleep_limit e (length (sent a))) = Inr pause"
  shows "trace (final (make_request e a req)) =
           trace a @ (case pause of None \<Rightarrow> [] | Some d \<Rightarrow> [Slept d]) @ [Sent req]"
  using assms
  by (simp add: make_request_def Let_def trace_after_response)

text \<open>
  C6, as the code has it. The rate-limit check raises nothing in the state of the analyzer
  (with fewer than 5 requests remaining, the reset time is known, \<^verbatim>\<open>datetime\<close> can
  represent it and a due sleep is one \<^verbatim>\<open>time.sleep\<close> can take). Then
  \<^verbatim>\<open>_make_request\<close> sleeps before it sends the request if and only if the remaining quota
  is known and below 5 and the reset time lies in the future; the sleep ends one second
  (1000000 microseconds) after the reset time; in every other such state the request is sent
  at once. This holds whatever the response is, also when reading it raises.
\<close>

theorem make_request_waits:
  assumes "clock e (length (sent a)) = now"
    and "passes a now (sleep_limit e (length (sent a)))"
  shows "(must_wait a now \<longrightarrow>
            (\<exists>t. rate_limit_reset a = Some t \<and>
                 trace (final (make_request e a req)) =
                   trace a @ [Slept (t * 1000000 + 1000000 - now), Sent req])) \<and>
         (\<not> must_wait a now \<longrightarrow>
            trace (final (make_request e a req)) = trace a @ [Sent req])"
proof -
  have "\<exists>t. rate_limit_reset a = Some t \<and>
      trace (final (make_request e a req)) =
        trace a @ [Slept (t * 1000000 + 1000000 - now), Sent req]" if "must_wait a now"
  proof -
    from that obtain r t where f: "rate_limit_remaining a = Some r" "r < 5"
      "rate_limit_reset a = Some t" "now < t * 1000000"
      by (auto simp: must_wait_def split: option.splits)
    from maybe_wait_due [OF assms(2) f]
    have "maybe_wait a (clock e (length (sent a))) (sleep_limit e (length (sent a))) =
        Inr (Some (t * 1000000 + 1000000 - now))"
      using assms(1) by simp
    from trace_make_request [OF this] f(3) show ?thesis by simp
  qed
  moreover have "trace (final (make_request e a req)) = trace a @ [Sent req]"
    if "\<not> must_wait a now"
  proof -
    from maybe_wait_not_due [OF assms(2) that]
    have "maybe_wait a (clock e (length (sent a))) (sleep_limit e (length (sent a))) = Inr None"
      using assms(1) by simp
    from trace_make_request [OF this] show ?thesis by simp
  qed
  ultimately show ?thesis by blast
qed

text \<open>
  With 3 requests left and the reset 10 seconds ahead, the request is sent after a sleep of
  11 seconds; a new analyzer sends its request at once.
\<close>

theorem make_request_waits_witness:
  "passes low_quota 1000000000 9000000000000000 \<and> must_wait low_quota 1000000000 \<and>
   trace (final (make_request offline_env low_quota (Get_user ''octocat''))) =
     [Slept 11000000, Sent (Get_user ''octocat'')] \<and>
   \<not> must_wait init 1000000000 \<and>
   trace (final (make_request offline_env init (Get_user ''octocat''))) =
     [Sent (Get_user ''octocat'')]"
proof -
  have c: "clock offline_env (length (sent low_quota)) = 1000000000"
    and c': "clock offline_env (length (sent init)) = 1000000000"
    by (simp_all add: offline_env_def)
  have l: "sleep_limit offline_env (length (sent low_quota)) = 9000000000000000"
    and l': "sleep_limit offline_env (length (sent init)) = 9000000000000000"
    by (simp_all add: offline_env_def)
  have p: "passes low_quota 1000000000 9000000000000000"
    and p': "passes init 1000000000 9000000000000000"
    by (simp_all add: passes_def passes_with_def low_quota_def init_def)
  have m: "must_wait low_quota 1000000000" and m': "\<not> must_wait init 1000000000"
    by (simp_all add: must_wait_def low_quota_def init_def)
  from make_request_waits [OF c, of "Get_user ''octocat''"] p l m
  have "trace (final (make_request offline_env low_quota (Get_user ''octocat''))) =
      [Slept 11000000, Sent (Get_user ''octocat'')]"
    by (simp add: low_quota_def init_def)
  moreover from make_request_waits [OF c', of "Get_user ''octocat''"] p' l' m'
  have "trace (final (make_request offline_env init (Get_user ''octocat''))) =
      [Sent (Get_user ''octocat'')]"
    by (simp add: init_def)
  ultimately show ?thesis using p m m' by simp
qed

text \<open>
  C6 as stated fails. A reply that reports no request remaining until the first second of
  the year 10000 leaves a state in which the remaining quota is known and below 5 and the
  reset time is in the future; the next call neither sleeps nor sends its request:
  \<^verbatim>\<open>datetime.fromtimestamp\<close> raises. With the reset one second earlier, the sleep of some
  8000 years is more than \<^verbatim>\<open>time.sleep\<close> takes.
\<close>

theorem make_request_far_reset_counterexample:
  "make_request far_reset_env init (Get_user ''octocat'') =
     Inr (JObj [(''login'', JStr ''octocat'')],
          \<lparr>rate_limit_remaining = Some 0, rate_limit_reset = Some 253402300800,
           trace = [Sent (Get_user ''octocat'')]\<rparr>) \<and>
   must_wait \<lparr>rate_limit_remaining = Some 0, rate_limit_reset = Some 253402300800,
              trace = [Sent (Get_user ''octocat'')]\<rparr> 1600000000000000 \<and>
   make_request far_reset_env
     \<lparr>rate_limit_remaining = Some 0, rate_limit_reset = Some 253402300800,
      trace = [Sent (Get_user ''octocat'')]\<rparr> (Get_repos_page ''octocat'' 1) =
     Inl (TimestampError,
          \<lparr>rate_limit_remaining = Some 0, rate_limit_reset = Some 253402300800,
           trace = [Sent (Get_user ''octocat'')]\<rparr>) \<and>
   make_request far_reset_env
     \<lparr>rate_limit_remaining = Some 0, rate_limit_reset = Some 253402300799,
      trace = [Sent (Get_user ''octocat'')]\<rparr> (Get_repos_page ''octocat'' 1) =
     Inl (OverflowError,
          \<lparr>rate_limit_remaining = Some 0, rate_limit_reset = Some 253402300799,
           trace = [Sent (Get_user ''octocat'')]\<rparr>)"
  by (simp add: make_request_def maybe_wait_def fromtimestamp_def time_sleep_def observe_def
        must_wait_def sent_def init_def far_reset_env_def)

subsection \<open>Reading the rate-limit headers\<close>

text \<open>
  C3, as the code has it: when each of the two headers is absent or readable, the analyzer
  overwrites both fields, whatever they held: a readable header gives its value, an absent
  one gives 0 (for the reset time: the epoch, not the current time).
\<close>

theorem observe_overwrites:
  assumes "h_remaining \<noteq> Garbage" and "h_reset \<noteq> Garbage"
  shows "observe a h_remaining h_reset =
           Inr (a\<lparr>rate_limit_remaining := Some (case h_remaining of Numeric n \<Rightarrow> n | _ \<Rightarrow> 0),
                  rate_limit_reset := Some (case h_reset of Numeric n \<Rightarrow> n | _ \<Rightarrow> 0)\<rparr>)"
  using assms by (cases h_remaining; cases h_reset) (simp_all add: observe_def)

theorem observe_overwrites_witness:
  "observe low_quota (Numeric 57) Missing =
     Inr (low_quota\<lparr>rate_limit_remaining := Some 57, rate_limit_reset := Some 0\<rparr>)"
  using observe_overwrites [of "Numeric 57" Missing low_quota] by simp

text \<open>
  C3 as stated fails: an absent \<^verbatim>\<open>X-RateLimit-Remaining\<close> does not keep the previous
  value 3 but stores 0, and two unreadable headers store nothing: \<^verbatim>\<open>int()\<close> raises.
\<close>

theorem observe_keeps_previous_counterexample:
  "observe low_quota Missing (Numeric 2000) =
     Inr (low_quota\<lparr>rate_limit_remaining := Some 0, rate_limit_reset := Some 2000\<rparr>) \<and>
   rate_limit_remaining low_quota = Some 3 \<and>
   observe low_quota Garbage Garbage = Inl (ValueError, low_quota)"
  by (simp add: observe_def low_quota_def init_def)

subsection \<open>The page loop\<close>

text \<open>
  C1, as the code has it. No request raises by itself: the rate-limit check passes in the
  state of the analyzer, and the responses of the server have rate-limit headers that
  \<^verbatim>\<open>int()\<close> reads and that let the check pass. Each page but the last has exactly 100
  entries and the last has fewer. Then \<^verbatim>\<open>get_user_repos\<close> of
  \<^verbatim>\<open>github_analyzer_app.py\<close> returns the concatenation of the pages and sends no request
  after the short page. That of \<^verbatim>\<open>github-api.py\<close> does so when the last page is empty;
  after a non-empty short page it asks for one more page, and returns the concatenation when
  that request gives a failure, an empty page or no list.
\<close>

theorem get_user_repos_short_page:
  assumes ok: "calm e a"
    and ord: "orderly e"
    and srv: "serves e (length (sent a)) u 1 rs"
    and rep: "list_all2 page_reply rs ps"
    and ne: "ps \<noteq> []"
    and full: "\<forall>p\<in>set (butlast ps). length p = 100"
    and short: "length (last ps) < 100"
    and nxt: "server e (length (sent a) + length ps) (Get_repos_page u (1 + int (length ps))) = r"
  shows "(\<exists>a'. get_user_repos Dashboard e a u = Some (Inr (concat ps, a')) \<and>
               sent a' = sent a @ page_requests u 1 (length ps)) \<and>
         (last ps = [] \<longrightarrow>
            (\<exists>a'. get_user_repos Terminal e a u = Some (Inr (concat ps, a')) \<and>
                  sent a' = sent a @ page_requests u 1 (length ps))) \<and>
         (last ps \<noteq> [] \<and> (\<not> truthy (payload r) \<or> \<not> is_list (payload r)) \<longrightarrow>
            (\<exists>a'. get_user_repos Terminal e a u = Some (Inr (concat ps, a')) \<and>
                  sent a' = sent a @ page_requests u 1 (Suc (length ps))))"
proof -
  define qs where "qs = butlast ps"
  define q where "q = last ps"
  have ps: "ps = qs @ [q]"
    using ne by (simp add: qs_def q_def)
  from rep ps obtain rs0 r0 where rs: "rs = rs0 @ [r0]"
    and rep0: "list_all2 page_reply rs0 qs" and rq: "page_reply r0 q"
    by (auto simp: list_all2_append2 list_all2_Cons2)
  have len0: "length rs0 = length qs"
    using rep0 by (rule list_all2_lengthD)
  from srv rs have srv0: "serves e (length (sent a)) u 1 rs0"
    and srvq: "server e (length (sent a) + length qs) (Get_repos_page u (1 + int (length qs))) = r0"
    by (simp_all add: serves_append serves_Cons len0)
  have cont: "\<forall>p\<in>set qs. continues v p" for v
    using full by (auto simp: qs_def continues_def)
  have pre: "\<exists>a1. calm e a1 \<and> sent a1 = sent a @ page_requests u 1 (length qs) \<and>
      get_user_repos v e a u = repos_loop v e u a1 (concat qs) (1 + int (length qs))" for v
    using loop_continue [OF ok ord srv0 rep0 cont, where acc = "[]"]
    by (simp add: get_user_repos_def)
  have dash: "\<exists>a'. get_user_repos Dashboard e a u = Some (Inr (concat ps, a')) \<and>
      sent a' = sent a @ page_requests u 1 (length ps)"
  proof -
    from pre [of Dashboard] obtain a1 where ok1: "calm e a1"
      and s1: "sent a1 = sent a @ page_requests u 1 (length qs)"
      and l1: "get_user_repos Dashboard e a u =
               repos_loop Dashboard e u a1 (concat qs) (1 + int (length qs))"
      by blast
    have "server e (length (sent a1)) (Get_repos_page u (1 + int (length qs))) = r0"
      using srvq s1 by (simp add: length_page_requests)
    from loop_short [OF ok1 ord this rq, where acc = "concat qs"] short
    obtain a' where "sent a' = sent a1 @ [Get_repos_page u (1 + int (length qs))]"
      and "repos_loop Dashboard e u a1 (concat qs) (1 + int (length qs)) =
           Some (Inr (concat qs @ q, a'))"
      by (auto simp: q_def)
    with l1 s1 show ?thesis
      by (auto simp: ps page_requests_snoc)
  qed
  have term_empty: "\<exists>a'. get_user_repos Terminal e a u = Some (Inr (concat ps, a')) \<and>
      sent a' = sent a @ page_requests u 1 (length ps)" if "last ps = []"
  proof -
    from pre [of Terminal] obtain a1 where ok1: "calm e a1"
      and s1: "sent a1 = sent a @ page_requests u 1 (length qs)"
      and l1: "get_user_repos Terminal e a u =
               repos_loop Terminal e u a1 (concat qs) (1 + int (length qs))"
      by blast
    have at: "server e (length (sent a1)) (Get_repos_page u (1 + int (length qs))) = r0"
      using srvq s1 by (simp add: length_page_requests)
    have qe: "q = []"
      using that by (simp add: q_def)
    from rq qe have "\<not> truthy (payload r0)"
      by (cases r0) simp_all
    then have "\<not> truthy (payload r0) \<or> \<not> is_list (payload r0)"
      by simp
    from loop_stop [OF ok1 ord at this, where v = Terminal and acc = "concat qs"]
    obtain a' where "sent a' = sent a1 @ [Get_repos_page u (1 + int (length qs))]"
      and "repos_loop Terminal e u a1 (concat qs) (1 + int (length qs)) =
           Some (Inr (concat qs, a'))"
      by blast
    with l1 s1 qe show ?thesis
      by (auto simp: ps page_requests_snoc)
  qed
  have term_more: "\<exists>a'. get_user_repos Terminal e a u = Some (Inr (concat ps, a')) \<and>
      sent a' = sent a @ page_requests u 1 (Suc (length ps))"
    if "last ps \<noteq> []" and stop: "\<not> truthy (payload r) \<or> \<not> is_list (payload r)"
  proof -
    have "q \<noteq> []"
      using that(1) by (simp add: q_def)
    then have "\<forall>p\<in>set ps. continues Terminal p"
      using cont [of Terminal] by (simp add: ps continues_def)
    from loop_continue [OF ok ord srv rep this, where acc = "[]"]
    obtain a1 where ok1: "calm e a1"
      and s1: "sent a1 = sent a @ page_requests u 1 (length ps)"
      and l1: "get_user_repos Terminal e a u =
               repos_loop Terminal e u a1 (concat ps) (1 + int (length ps))"
      by (auto simp: get_user_repos_def)
    have at: "server e (length (sent a1)) (Get_repos_page u (1 + int (length ps))) = r"
      using nxt s1 by (simp add: length_page_requests)
    from loop_stop [OF ok1 ord at stop, where v = Terminal and acc = "concat ps"]
    obtain a' where "sent a' = sent a1 @ [Get_repos_page u (1 + int (length ps))]"
      and "repos_loop Terminal e u a1 (concat ps) (1 + int (length ps)) =
           Some (Inr (concat ps, a'))"
      by blast
    with l1 s1 show ?thesis
      by (auto simp: page_requests_snoc)
  qed
  from dash term_empty term_more show ?thesis by blast
qed

lemma passes_high_quota: "5 \<le> r \<Longrightarrow> passes_with (Some r) reset now limit"
  by (simp add: passes_with_def)

lemma calm_init: "calm e init"
  by (simp add: calm_def passes_def passes_with_def init_def)

text \<open>
  The user of \<open>paged_env\<close> has a page of 100 repositories and a page of one: the dashboard
  file sends two requests, the terminal file a third one, answered by an empty page.
\<close>

theorem get_user_repos_short_page_witness:
  "(\<exists>a'. get_user_repos Dashboard paged_env init ''octocat'' =
            Some (Inr (replicate 100 repo_a @ [repo_b], a')) \<and>
          sent a' = [Get_repos_page ''octocat'' 1, Get_repos_page ''octocat'' 2]) \<and>
   (\<exists>a'. get_user_repos Terminal paged_env init ''octocat'' =
            Some (Inr (replicate 100 repo_a @ [repo_b], a')) \<and>
          sent a' = [Get_repos_page ''octocat'' 1, Get_repos_page ''octocat'' 2,
                     Get_repos_page ''octocat'' 3])"
proof -
  have ord: "orderly paged_env"
    by (simp add: orderly_def paged_env_def ok_reply_def passes_high_quota
          split: request.split)
  have srv: "serves paged_env (length (sent init)) ''octocat'' 1
      [ok_reply (JList (replicate 100 repo_a)), ok_reply (JList [repo_b])]"
    by (simp add: serves_def All_less_Suc paged_env_def)
  have rep: "list_all2 page_reply
      [ok_reply (JList (replicate 100 repo_a)), ok_reply (JList [repo_b])]
      [replicate 100 repo_a, [repo_b]]"
    by (simp add: ok_reply_def)
  have nxt: "server paged_env (length (sent init) + length [replicate 100 repo_a, [repo_b]])
      (Get_repos_page ''octocat'' (1 + int (length [replicate 100 repo_a, [repo_b]]))) =
      ok_reply (JList [])"
    by (simp add: paged_env_def)
  from get_user_repos_short_page [OF calm_init ord srv rep _ _ _ nxt]
  show ?thesis
    by (simp add: ok_reply_def page_requests_def upt_rec sent_def init_def)
qed

text \<open>
  C1 as stated fails for \<^verbatim>\<open>github-api.py\<close>: after the short second page of one repository
  it sends a request for page 3.
\<close>

theorem get_user_repos_terminal_counterexample:
  "get_user_repos Terminal paged_env init ''octocat'' =
     Some (Inr (replicate 100 repo_a @ [repo_b],
       \<lparr>rate_limit_remaining = Some 4990, rate_limit_reset = Some 1700000000,
        trace = [Sent (Get_repos_page ''octocat'' 1), Sent (Get_repos_page ''octocat'' 2),
                 Sent (Get_repos_page ''octocat'' 3)]\<rparr>))"
  by (simp add: get_user_repos_def repos_loop.simps make_request_def maybe_wait_def
        observe_def sent_def init_def paged_env_def ok_reply_def)


text \<open>
  C4 fails on the code. The server of \<open>garbled_env\<close> answers page 1 with 100 repositories
  and page 2 with a 502 whose \<^verbatim>\<open>X-RateLimit-Remaining\<close> is no number: \<^verbatim>\<open>int()\<close> raises
  \<^verbatim>\<open>ValueError\<close> before the status is looked at, \<^verbatim>\<open>except RequestException\<close> does not
  catch it, and \<^verbatim>\<open>get_user_repos\<close> of either file raises instead of returning the 100
  repositories.
\<close>

theorem get_user_repos_garbled_failure:
  "get_user_repos Terminal garbled_env init ''octocat'' =
     Some (Inl (ValueError,
       \<lparr>rate_limit_remaining = Some 4990, rate_limit_reset = Some 1700000000,
        trace = [Sent (Get_repos_page ''octocat'' 1), Sent (Get_repos_page ''octocat'' 2)]\<rparr>)) \<and>
   get_user_repos Dashboard garbled_env init ''octocat'' =
     Some (Inl (ValueError,
       \<lparr>rate_limit_remaining = Some 4990, rate_limit_reset = Some 1700000000,
        trace = [Sent (Get_repos_page ''octocat'' 1), Sent (Get_repos_page ''octocat'' 2)]\<rparr>)) \<and>
   failure (server garbled_env 1 (Get_repos_page ''octocat'' 2))"
  by (simp add: get_user_repos_def repos_loop.simps make_request_def maybe_wait_def
        observe_def sent_def init_def garbled_env_def ok_reply_def)

subsection \<open>The profile and the repositories\<close>


lemma make_request_value:
  assumes "make_request e a req = Inr (x, a')"
  shows "x = payload (server e (length (sent a)) req)"
proof (cases "server e (length (sent a)) req")
  case ConnectionFailed
  with assms show ?thesis
    by (auto simp: make_request_def and_then_eq_Inr Let_def)
next
  case (Reply st h1 h2 body)
  with assms show ?thesis
    by (auto simp: make_request_def and_then_eq_Inr Let_def split: if_splits)
qed

lemma dict_get_JObj:
  "dict_get (JObj kv) k d = Inr (case map_of kv k of None \<Rightarrow> d | Some x \<Rightarrow> x)"
  by (simp split: option.split)

lemma build_user_info_JObj:
  "build_user_info v (JObj kv) =
     Inr \<lparr>name = (case map_of kv ''name'' of None \<Rightarrow> JStr ''N/A'' | Some x \<Rightarrow> x),
          bio = (case map_of kv ''bio'' of None \<Rightarrow> JStr ''N/A'' | Some x \<Rightarrow> x),
          location = (case map_of kv ''location'' of None \<Rightarrow> JStr ''N/A'' | Some x \<Rightarrow> x),
          public_repos = (case map_of kv ''public_repos'' of None \<Rightarrow> JInt 0 | Some x \<Rightarrow> x),
          followers = (case map_of kv ''followers'' of None \<Rightarrow> JInt 0 | Some x \<Rightarrow> x),
          following = (case map_of kv ''following'' of None \<Rightarrow> JInt 0 | Some x \<Rightarrow> x),
          created_at = (case map_of kv ''created_at'' of None \<Rightarrow> JStr ''N/A'' | Some x \<Rightarrow> x),
          avatar_url = (if v = Dashboard
            then Some (case map_of kv ''avatar_url'' of None \<Rightarrow> JStr [] | Some x \<Rightarrow> x)
            else None)\<rparr>"
  unfolding build_user_info_def dict_get_JObj by simp


lemma analyze_repo_entry:
  assumes "analyze_repo e repo (an, a) = Inr (an', a')"
  shows "\<exists>oe. popular_entry repo = Inr oe \<and>
           popular_repos an' = popular_repos an @ (case oe of None \<Rightarrow> [] | Some x \<Rightarrow> [x])"
proof -
  from assms obtain st where st: "and_then (getitem repo ''stargazers_count'') as_number = Inr st"
    by (auto simp: analyze_repo_def and_then_eq_Inr raising_eq_Inr Let_def)
  show ?thesis
  proof (cases "0 < st")
    case True
    with assms st show ?thesis
      by (auto simp: analyze_repo_def popular_entry_def count_field_def and_then_eq_Inr
            raising_eq_Inr Let_def)
  next
    case False
    with assms st show ?thesis
      by (auto simp: analyze_repo_def popular_entry_def count_field_def and_then_eq_Inr
            raising_eq_Inr Let_def)
  qed
qed

lemma discovered_Cons:
  "popular_entry repo = Inr oe \<Longrightarrow>
   discovered (repo # repos) = (case oe of None \<Rightarrow> [] | Some x \<Rightarrow> [x]) @ discovered repos"
  by (simp add: discovered_def split: option.split)

lemma analyze_repos_entries:
  assumes "analyze_repos e repos (an, a) = Inr (an', a')"
  shows "popular_repos an' = popular_repos an @ discovered repos"
  using assms
proof (induction repos arbitrary: an a)
  case Nil
  then show ?case by (simp add: discovered_def)
next
  case (Cons repo repos)
  from Cons.prems obtain an1 a1 where one: "analyze_repo e repo (an, a) = Inr (an1, a1)"
    and more: "analyze_repos e repos (an1, a1) = Inr (an', a')"
    by (auto simp: and_then_eq_Inr)
  from analyze_repo_entry [OF one] obtain oe where oe: "popular_entry repo = Inr oe"
    and p1: "popular_repos an1 = popular_repos an @ (case oe of None \<Rightarrow> [] | Some x \<Rightarrow> [x])"
    by blast
  from Cons.IH [OF more] p1 discovered_Cons [OF oe, of repos] show ?case
    by simp
qed









lemma analyze_repo_profile:
  "analyze_repo e repo (an, a) = Inr (an', a') \<Longrightarrow> profile an' = profile an"
  by (auto simp: analyze_repo_def and_then_eq_Inr raising_eq_Inr Let_def split: if_splits)

lemma analyze_repos_profile:
  "analyze_repos e repos (an, a) = Inr (an', a') \<Longrightarrow> profile an' = profile an"
proof (induction repos arbitrary: an a)
  case Nil
  then show ?case by simp
next
  case (Cons repo repos)
  from Cons.prems obtain an1 a1 where one: "analyze_repo e repo (an, a) = Inr (an1, a1)"
    and more: "analyze_repos e repos (an1, a1) = Inr (an', a')"
    by (auto simp: and_then_eq_Inr)
  from Cons.IH [OF more] analyze_repo_profile [OF one] show ?case by simp
qed

text \<open>
  C10: in the result of an analysis, each of \<^verbatim>\<open>name\<close>, \<^verbatim>\<open>bio\<close> and \<^verbatim>\<open>location\<close> is the
  value the profile JSON holds under that key, null included; it is the default
  \<^verbatim>\<open>"N/A"\<close> only when the profile JSON has no such key.
\<close>

theorem analyze_profile_fields:
  assumes run: "analyze_user_activity v e a u = Some (Inr (Analysis an, a'))"
    and at: "server e (length (sent a)) (Get_user u) = Reply status h1 h2 (JObj kv)"
  shows "name (profile an) = (case map_of kv ''name'' of None \<Rightarrow> JStr ''N/A'' | Some x \<Rightarrow> x) \<and>
         bio (profile an) = (case map_of kv ''bio'' of None \<Rightarrow> JStr ''N/A'' | Some x \<Rightarrow> x) \<and>
         location (profile an) =
           (case map_of kv ''location'' of None \<Rightarrow> JStr ''N/A'' | Some x \<Rightarrow> x)"
proof -
  from run obtain info a1 where gi: "get_user_info e a u = Inr (info, a1)"
    and tr: "truthy info"
    by (auto simp: analyze_user_activity_def split: sum.splits if_splits)
  from gi at have "info = (if status = 200 then JObj kv else JNull)"
    using make_request_value [of e a "Get_user u" info a1]
    by (simp add: get_user_info_def)
  with tr have info: "info = JObj kv"
    by (simp split: if_splits)
  from run gi tr obtain repositories a2 ui an0 where
    bu: "build_user_info v info = Inr ui"
    and rp: "analyze_repos e repositories (new_analysis ui, a2) = Inr (an0, a')"
    and an: "an = an0\<lparr>popular_repos := sort_popular (popular_repos an0)\<rparr>"
    by (auto simp: analyze_user_activity_def and_then_eq_Inr raising_eq_Inr
             split: option.splits sum.splits)
  have "profile an = ui"
    using analyze_repos_profile [OF rp] an by (simp add: new_analysis_def)
  with bu info show ?thesis
    by (auto simp: build_user_info_JObj)
qed

text \<open>
  The profile of \<open>demo_env\<close> has \<^verbatim>\<open>"name": null\<close>, no \<^verbatim>\<open>bio\<close> and a \<^verbatim>\<open>location\<close>.
\<close>

theorem analyze_profile_fields_witness:
  "case analyze_user_activity Dashboard demo_env init ''octocat'' of
     Some (Inr (Analysis an, a')) \<Rightarrow>
       name (profile an) = JNull \<and> bio (profile an) = JStr ''N/A'' \<and>
       location (profile an) = JStr ''Earth''
   | _ \<Rightarrow> False"
proof -
  obtain an a' where run:
    "analyze_user_activity Dashboard demo_env init ''octocat'' = Some (Inr (Analysis an, a'))"
    by (simp add: analyze_user_activity_def get_user_info_def get_user_repos_def
        repos_loop.simps make_request_def maybe_wait_def observe_def sent_def init_def
        demo_env_def
        ok_reply_def repo_a_def repo_b_def build_user_info_def new_analysis_def
        analyze_repo_def get_repo_languages_def get_commit_activity_def py_or_def
        add_languages_def add_commit_activity_def counter_add_def counter_get_def
        day_abbr_def sort_popular_def)
  have at: "server demo_env (length (sent init)) (Get_user ''octocat'') =
      Reply 200 (Numeric 4990) (Numeric 1700000000)
        (JObj [(''login'', JStr ''octocat''), (''name'', JNull),
               (''location'', JStr ''Earth''), (''followers'', JInt 7)])"
    by (simp add: demo_env_def ok_reply_def)
  from analyze_profile_fields [OF run at] run show ?thesis
    by simp
qed

subsection \<open>End to end\<close>

text \<open>
  C9: the user of \<open>demo_env\<close> has the repository A with 10 stars, 2 forks and the language
  bytes X: 100, and the repository B with no stars, no forks and the language bytes X: 50,
  Y: 50. Both files return the language tally X: 150, Y: 50, 10 stars and 2 forks in total
  and one popular repository, A.
\<close>

theorem analyze_two_repositories:
  "analyze_user_activity Terminal demo_env init ''octocat'' =
     Some (Inr (Analysis
       \<lparr>profile = \<lparr>name = JNull, bio = JStr ''N/A'', location = JStr ''Earth'',
                   public_repos = JInt 0, followers = JInt 7, following = JInt 0,
                   created_at = JStr ''N/A'', avatar_url = None\<rparr>,
        languages = [(''X'', 150), (''Y'', 50)],
        commit_days = [(''Mon'', 1), (''Sun'', 2)],
        total_stars = 10, total_forks = 2,
        popular_repos = [\<lparr>repo_name = JStr ''A'', stars = 10, forks = 2,
                          description = JStr ''No description'',
                          main_language = JStr ''X''\<rparr>]\<rparr>,
       \<lparr>rate_limit_remaining = Some 4990, rate_limit_reset = Some 1700000000,
        trace = [Sent (Get_user ''octocat''), Sent (Get_repos_page ''octocat'' 1),
                 Sent (Get_repos_page ''octocat'' 2),
                 Sent (Get_languages (JStr ''octocat/A'')),
                 Sent (Get_commit_activity (JStr ''octocat/A'')),
                 Sent (Get_languages (JStr ''octocat/B'')),
                 Sent (Get_commit_activity (JStr ''octocat/B''))]\<rparr>)) \<and>
   analyze_user_activity Dashboard demo_env init ''octocat'' =
     Some (Inr (Analysis
       \<lparr>profile = \<lparr>name = JNull, bio = JStr ''N/A'', location = JStr ''Earth'',
                   public_repos = JInt 0, followers = JInt 7, following = JInt 0,
                   created_at = JStr ''N/A'', avatar_url = Some (JStr [])\<rparr>,
        languages = [(''X'', 150), (''Y'', 50)],
        commit_days = [(''Mon'', 1), (''Sun'', 2)],
        total_stars = 10, total_forks = 2,
        popular_repos = [\<lparr>repo_name = JStr ''A'', stars = 10, forks = 2,
                          description = JStr ''No description'',
                          main_language = JStr ''X''\<rparr>]\<rparr>,
       \<lparr>rate_limit_remaining = Some 4990, rate_limit_reset = Some 1700000000,
        trace = [Sent (Get_user ''octocat''), Sent (Get_repos_page ''octocat'' 1),
                 Sent (Get_languages (JStr ''octocat/A'')),
                 Sent (Get_commit_activity (JStr ''octocat/A'')),
                 Sent (Get_languages (JStr ''octocat/B'')),
                 Sent (Get_commit_activity (JStr ''octocat/B''))]\<rparr>))"
  by (simp add: analyze_user_activity_def get_user_info_def get_user_repos_def
        repos_loop.simps make_request_def maybe_wait_def observe_def sent_def init_def
        demo_env_def
        ok_reply_def repo_a_def repo_b_def build_user_info_def new_analysis_def
        analyze_repo_def get_repo_languages_def get_commit_activity_def py_or_def
        add_languages_def add_commit_activity_def counter_add_def counter_get_def
        day_abbr_def sort_popular_def)

subsection \<open>The ranking\<close>

lemma sort_popular_descending:
  "sorted_wrt (\<lambda>x y. stars y \<le> stars x) (sort_popular xs)"
proof -
  have "sorted (map stars (sort_key stars (rev xs)))"
    by (rule sorted_sort_key)
  then show ?thesis
    by (simp add: sort_popular_def sorted_wrt_rev sorted_map)
qed

lemma sort_popular_stable:
  "filter (\<lambda>x. stars x = s) (sort_popular xs) = filter (\<lambda>x. stars x = s) xs"
  by (simp add: sort_popular_def sort_key_stable flip: rev_filter)

lemma mset_sort_popular: "mset (sort_popular xs) = mset xs"
  by (simp add: sort_popular_def)

text \<open>
  C7: in every analysis that \<^verbatim>\<open>analyze_user_activity\<close> returns, the popular repositories
  are in descending order of stars; they are the entries of the repositories with stars that
  \<^verbatim>\<open>get_user_repos\<close> returned, and the entries with one and the same number of stars come
  in the order in which \<^verbatim>\<open>get_user_repos\<close> returned their repositories.
\<close>

theorem analyze_ranks_popular:
  assumes run: "analyze_user_activity v e a u = Some (Inr (Analysis an, a'))"
  shows "\<exists>info a1 repositories a2.
           get_user_info e a u = Inr (info, a1) \<and>
           get_user_repos v e a1 u = Some (Inr (repositories, a2)) \<and>
           sorted_wrt (\<lambda>x y. stars y \<le> stars x) (popular_repos an) \<and>
           (\<forall>s. filter (\<lambda>x. stars x = s) (popular_repos an) =
                filter (\<lambda>x. stars x = s) (discovered repositories)) \<and>
           mset (popular_repos an) = mset (discovered repositories)"
proof -
  from run obtain info a1 repositories a2 ui an0 where
    gi: "get_user_info e a u = Inr (info, a1)"
    and crawl: "get_user_repos v e a1 u = Some (Inr (repositories, a2))"
    and loop: "analyze_repos e repositories (new_analysis ui, a2) = Inr (an0, a')"
    and an: "an = an0\<lparr>popular_repos := sort_popular (popular_repos an0)\<rparr>"
    by (auto simp: analyze_user_activity_def and_then_eq_Inr raising_eq_Inr
             split: option.splits sum.splits if_splits)
  from analyze_repos_entries [OF loop]
  have "popular_repos an0 = discovered repositories"
    by (simp add: new_analysis_def)
  with an have "popular_repos an = sort_popular (discovered repositories)"
    by simp
  with gi crawl show ?thesis
    using sort_popular_descending sort_popular_stable mset_sort_popular by auto
qed

text \<open>
  The repositories of \<open>ranked_env\<close> come as P (5 stars), Q (7), R (none), S (5): the
  analysis ranks Q, P, S.
\<close>

theorem analyze_ranks_popular_witness:
  "\<exists>an a'. analyze_user_activity Dashboard ranked_env init ''octocat'' =
              Some (Inr (Analysis an, a')) \<and>
            map repo_name (popular_repos an) = [JStr ''Q'', JStr ''P'', JStr ''S''] \<and>
            map stars (popular_repos an) = [7, 5, 5] \<and>
            sorted_wrt (\<lambda>x y. stars y \<le> stars x) (popular_repos an)"
proof -
  obtain an a' where run:
    "analyze_user_activity Dashboard ranked_env init ''octocat'' = Some (Inr (Analysis an, a'))"
    and names: "map repo_name (popular_repos an) = [JStr ''Q'', JStr ''P'', JStr ''S'']"
    and counts: "map stars (popular_repos an) = [7, 5, 5]"
    by (simp add: analyze_user_activity_def get_user_info_def get_user_repos_def
        repos_loop.simps make_request_def maybe_wait_def observe_def sent_def init_def
        ranked_env_def starred_def ok_reply_def build_user_info_def new_analysis_def
        analyze_repo_def get_repo_languages_def get_commit_activity_def py_or_def
        add_languages_def add_commit_activity_def sort_popular_def)
  from analyze_ranks_popular [OF run]
  have "sorted_wrt (\<lambda>x y. stars y \<le> stars x) (popular_repos an)"
    by blast
  with run names counts show ?thesis
    by (intro exI conjI)
qed

subsection \<open>The tallies\<close>

text \<open>
  The language tally of the loop over the repositories is the fold of \<open>add_languages\<close> over
  what the language requests of the repositories return.
\<close>

lemma analyze_repo_languages:
  assumes "analyze_repo e repo (an, a) = Inr (an', a')"
  shows "\<exists>full_name. getitem repo ''full_name'' = Inr full_name \<and>
           add_languages (languages an)
             (py_or (payload (server e (length (sent a)) (Get_languages full_name))) (JObj [])) =
           Inr (languages an')"
proof -
  from assms obtain full_name r a1 ls where fn: "getitem repo ''full_name'' = Inr full_name"
    and mr: "make_request e a (Get_languages full_name) = Inr (r, a1)"
    and al: "add_languages (languages an) (py_or r (JObj [])) = Inr ls"
    and res: "languages an' = ls"
    by (auto simp: analyze_repo_def get_repo_languages_def and_then_eq_Inr raising_eq_Inr
             Let_def split: if_splits)
  from make_request_value [OF mr] fn al res show ?thesis
    by auto
qed

lemma analyze_repos_languages:
  assumes "analyze_repos e repos (an, a) = Inr (an', a')"
  shows "\<exists>ls. list_all2 (\<lambda>repo l. \<exists>full_name n. getitem repo ''full_name'' = Inr full_name \<and>
                   l = py_or (payload (server e n (Get_languages full_name))) (JObj []))
                 repos ls \<and>
              add_all_languages (languages an) ls = Inr (languages an')"
  using assms
proof (induction repos arbitrary: an a)
  case Nil
  then show ?case by simp
next
  case (Cons repo repos)
  from Cons.prems obtain an1 a1 where one: "analyze_repo e repo (an, a) = Inr (an1, a1)"
    and more: "analyze_repos e repos (an1, a1) = Inr (an', a')"
    by (auto simp: and_then_eq_Inr)
  from analyze_repo_languages [OF one] obtain full_name where
    fn: "getitem repo ''full_name'' = Inr full_name"
    and al: "add_languages (languages an)
      (py_or (payload (server e (length (sent a)) (Get_languages full_name))) (JObj [])) =
      Inr (languages an1)"
    by blast
  from Cons.IH [OF more] obtain ls where
    rest: "list_all2 (\<lambda>repo l. \<exists>full_name n. getitem repo ''full_name'' = Inr full_name \<and>
                   l = py_or (payload (server e n (Get_languages full_name))) (JObj []))
             repos ls"
    and fold: "add_all_languages (languages an1) ls = Inr (languages an')"
    by blast
  let ?l = "py_or (payload (server e (length (sent a)) (Get_languages full_name))) (JObj [])"
  have "list_all2 (\<lambda>repo l. \<exists>full_name n. getitem repo ''full_name'' = Inr full_name \<and>
                   l = py_or (payload (server e n (Get_languages full_name))) (JObj []))
          (repo # repos) (?l # ls)"
    using fn rest by auto
  moreover have "add_all_languages (languages an) (?l # ls) = Inr (languages an')"
    using al fold by simp
  ultimately show ?case by blast
qed












text \<open>
  C2 fails on the code: \<^verbatim>\<open>calendar.day_abbr\<close> starts the week on Monday, so one commit on
  day 0 of an API week, a Sunday, is tallied under \<^verbatim>\<open>Mon\<close>.
\<close>

theorem commit_day_zero_is_monday:
  "add_commit_activity []
     (JList [JObj [(''days'', JList [JInt 1, JInt 0, JInt 0, JInt 0, JInt 0, JInt 0, JInt 0])]]) =
   Inr [(''Mon'', 1)]"
  by (simp add: add_commit_activity_def counter_add_def counter_get_def day_abbr_def)


end
